theory Spec2Isabelle
  imports Complex_Main "HOL-Library.AList" "HOL-Library.Product_Lexorder"
begin

section \<open>Agent Orchestration Matrix: data model\<close>

text \<open>
  A shallow embedding of \<^verbatim>\<open>agent_orchestration_matrix.py\<close>.

  Modelling conventions.
  \<^item> Python \<^verbatim>\<open>float\<close> values are idealised as \<^typ>\<open>real\<close>: rounding is not modelled.
  \<^item> A \<^verbatim>\<open>datetime\<close> is the number of microseconds since 0001-01-01T00:00:00
    (naive datetimes only); \<^verbatim>\<open>datetime.now()\<close> and \<^verbatim>\<open>time.time()\<close> are
    explicit arguments of the functions that call them.
  \<^item> A \<^verbatim>\<open>dict\<close> is an association list in insertion order; \<open>AList.update\<close>
    keeps the position of an existing key and appends a new one, as Python does.
  \<^item> The program runs on one asyncio event loop: a coroutine runs without
    interruption until an \<^verbatim>\<open>await\<close> that really suspends. The only such points
    are \<^verbatim>\<open>asyncio.sleep\<close> in the orchestration loop and in a worker's execution,
    so every function below is one uninterrupted segment, and a coroutine that
    suspends is cut into a segment before and a segment after the suspension.
\<close>

datatype AgentType = VOICE | VISION | TASK | CREATIVE | ANALYTICAL | SOCIAL | SECURITY
  | WORKFLOW | CUSTOM

datatype AgentState = IDLE | ACTIVE | BUSY | ERROR | MAINTENANCE

datatype TaskPriority = LOW | MEDIUM | HIGH | CRITICAL | EMERGENCY

fun priority_value :: "TaskPriority \<Rightarrow> int" where
  "priority_value LOW = 1"
| "priority_value MEDIUM = 2"
| "priority_value HIGH = 3"
| "priority_value CRITICAL = 4"
| "priority_value EMERGENCY = 5"

type_synonym datetime = int

text \<open>\<^verbatim>\<open>datetime.max\<close> is 9999-12-31T23:59:59.999999: 3652059 days, less one microsecond.\<close>

definition datetime_max :: datetime where
  "datetime_max = 3652059 * 86400 * 1000000 - 1"

text \<open>The values of type \<^verbatim>\<open>Any\<close> that the program stores in its dictionaries.\<close>

datatype py_value = Str string | Num real | Bool bool

type_synonym py_dict = "(string \<times> py_value) list"

datatype py_exception = ValueError string | KeyError string

fun exception_str :: "py_exception \<Rightarrow> string" where
  "exception_str (ValueError msg) = msg"
| "exception_str (KeyError k) = [CHR 0x27] @ k @ [CHR 0x27]"

record AgentCapability =
  cap_name :: string
  cap_description :: string
  input_types :: "string list"
  output_types :: "string list"
  confidence_score :: real
  execution_time_estimate :: real
  resource_requirements :: py_dict

record Task =
  task_id :: string
  description :: string
  input_data :: py_dict
  required_capabilities :: "string list"
  priority :: TaskPriority
  deadline :: "datetime option"
  task_context :: py_dict
  dependencies :: "string list"
  created_at :: datetime
  user_id :: string

record AgentResponse =
  resp_agent_id :: string
  resp_task_id :: string
  success :: bool
  resp_output :: "py_dict option"
  confidence :: real
  execution_time :: real
  error_message :: "string option"
  metadata :: py_dict
  timestamp :: datetime

text \<open>
  The dictionary \<^verbatim>\<open>performance_metrics\<close> of a worker. \<open>tasks_completed\<close> starts at 0
  and is only ever incremented, hence a natural number.
\<close>

record PerformanceMetrics =
  tasks_completed :: nat
  success_rate :: real
  average_execution_time :: real
  last_active :: datetime

record BaseAgent =
  agent_id :: string
  agent_type :: AgentType
  capabilities :: "AgentCapability list"
  state :: AgentState
  current_task :: "Task option"
  performance_metrics :: PerformanceMetrics
  load_factor :: real

text \<open>\<^verbatim>\<open>BaseAgent.__init__\<close>; \<open>now\<close> is \<^verbatim>\<open>datetime.now()\<close>.\<close>

definition BaseAgent_init :: "datetime \<Rightarrow> string \<Rightarrow> AgentType \<Rightarrow> AgentCapability list \<Rightarrow> BaseAgent" where
  "BaseAgent_init now aid ty caps =
     \<lparr>agent_id = aid, agent_type = ty, capabilities = caps, state = IDLE,
      current_task = None,
      performance_metrics =
        \<lparr>tasks_completed = 0, success_rate = 1.0, average_execution_time = 0.0,
         last_active = now\<rparr>,
      load_factor = 0.0\<rparr>"

section \<open>Worker performance metrics\<close>

text \<open>\<^verbatim>\<open>BaseAgent.update_performance_metrics\<close>; \<open>now\<close> is \<^verbatim>\<open>datetime.now()\<close>.\<close>

definition update_performance_metrics :: "datetime \<Rightarrow> BaseAgent \<Rightarrow> AgentResponse \<Rightarrow> BaseAgent" where
  "update_performance_metrics now self response =
     (let m = performance_metrics self;
          total_tasks = tasks_completed m + 1;
          current_successes = success_rate m * real (total_tasks - 1);
          new_rate = (if success response
                      then (current_successes + 1) / real total_tasks
                      else current_successes / real total_tasks);
          current_avg = average_execution_time m;
          new_avg = (current_avg * real (total_tasks - 1) + execution_time response)
                      / real total_tasks
      in self\<lparr>performance_metrics :=
           \<lparr>tasks_completed = total_tasks, success_rate = new_rate,
            average_execution_time = new_avg, last_active = now\<rparr>\<rparr>)"



section \<open>The worker contract and the built-in voice worker\<close>

text \<open>
  \<^verbatim>\<open>can_handle_task\<close> and \<^verbatim>\<open>execute_task\<close> are abstract methods of \<^verbatim>\<open>BaseAgent\<close>: the
  orchestrator is parametrised by them. \<^verbatim>\<open>execute_task\<close> is a coroutine; it is given
  as the segment that runs before the worker suspends and the segment that runs after
  it, which either returns a Result or raises. (A worker that returns or raises
  without suspending is the run in which the second segment follows the first at
  once.) Each segment takes the worker object as it is when the segment starts and
  gives it back as the segment leaves it.
\<close>

record AgentMethods =
  can_handle_task :: "BaseAgent \<Rightarrow> Task \<Rightarrow> real"
  execute_task_enter :: "BaseAgent \<Rightarrow> Task \<Rightarrow> BaseAgent"
  execute_task_resume ::
    "real \<Rightarrow> real \<Rightarrow> datetime \<Rightarrow> BaseAgent \<Rightarrow> Task \<Rightarrow> BaseAgent \<times> (py_exception + AgentResponse)"

text \<open>\<^verbatim>\<open>VoiceAgent.__init__\<close>.\<close>

definition VoiceAgent_init :: "datetime \<Rightarrow> BaseAgent" where
  "VoiceAgent_init now =
     BaseAgent_init now ''voice_agent_001'' VOICE
       [\<lparr>cap_name = ''speech_to_text'', cap_description = ''Convert speech to text'',
         input_types = [''audio''], output_types = [''text''], confidence_score = 0.9,
         execution_time_estimate = 2.0,
         resource_requirements = [(''memory'', Str ''low''), (''cpu'', Str ''medium'')]\<rparr>,
        \<lparr>cap_name = ''text_to_speech'', cap_description = ''Convert text to speech'',
         input_types = [''text''], output_types = [''audio''], confidence_score = 0.85,
         execution_time_estimate = 1.5,
         resource_requirements = [(''memory'', Str ''low''), (''cpu'', Str ''medium'')]\<rparr>,
        \<lparr>cap_name = ''voice_analysis'',
         cap_description = ''Analyze voice for emotion and intent'',
         input_types = [''audio''], output_types = [''analysis''], confidence_score = 0.75,
         execution_time_estimate = 3.0,
         resource_requirements = [(''memory'', Str ''medium''), (''cpu'', Str ''high'')]\<rparr>]"

text \<open>
  Python's \<^verbatim>\<open>repr\<close> of a list of strings, for capability names without quotes or
  escapes.
\<close>

fun join_strings :: "string \<Rightarrow> string list \<Rightarrow> string" where
  "join_strings sep [] = []"
| "join_strings sep [x] = x"
| "join_strings sep (x # y # ys) = x @ sep @ join_strings sep (y # ys)"

definition repr_str_list :: "string list \<Rightarrow> string" where
  "repr_str_list xs =
     ''['' @ join_strings '', '' (map (\<lambda>x. [CHR 0x27] @ x @ [CHR 0x27]) xs) @ '']''"

text \<open>The body of the \<^verbatim>\<open>try\<close> block of \<^verbatim>\<open>VoiceAgent.execute_task\<close>, after the sleep.\<close>

definition VoiceAgent_process :: "Task \<Rightarrow> py_exception + py_dict" where
  "VoiceAgent_process task =
     (if ''speech_to_text'' \<in> set (required_capabilities task)
      then Inr [(''text'', Str ''Transcribed speech content''), (''confidence'', Num 0.92)]
      else if ''text_to_speech'' \<in> set (required_capabilities task)
      then Inr [(''audio_url'', Str ''/path/to/generated/audio.wav''), (''duration'', Num 5.2)]
      else if ''voice_analysis'' \<in> set (required_capabilities task)
      then Inr [(''emotion'', Str ''neutral''), (''intent'', Str ''question''),
                (''confidence'', Num 0.78), (''speaker_id'', Str ''user_001'')]
      else Inl (ValueError (''Unsupported capability: ''
                  @ repr_str_list (required_capabilities task))))"

text \<open>
  \<^verbatim>\<open>VoiceAgent.execute_task\<close> up to \<^verbatim>\<open>await asyncio.sleep(1.0)\<close>. The local variable
  \<^verbatim>\<open>start_time\<close> is kept by the caller of the segments.
\<close>

definition VoiceAgent_execute_task_enter :: "BaseAgent \<Rightarrow> Task \<Rightarrow> BaseAgent" where
  "VoiceAgent_execute_task_enter self task = self\<lparr>state := ACTIVE, current_task := Some task\<rparr>"

text \<open>
  \<^verbatim>\<open>VoiceAgent.execute_task\<close> from the sleep on: the rest of \<^verbatim>\<open>try\<close>, the handler, the
  \<^verbatim>\<open>finally\<close> block and the return. \<open>t_end\<close> is \<^verbatim>\<open>time.time()\<close> and \<open>now\<close> is
  \<^verbatim>\<open>datetime.now()\<close> in this segment.
\<close>

definition VoiceAgent_execute_task_resume ::
  "real \<Rightarrow> real \<Rightarrow> datetime \<Rightarrow> BaseAgent \<Rightarrow> Task \<Rightarrow> BaseAgent \<times> (py_exception + AgentResponse)" where
  "VoiceAgent_execute_task_resume start_time t_end now self task =
     (let response =
            (case VoiceAgent_process task of
               Inr out \<Rightarrow>
                 \<lparr>resp_agent_id = agent_id self, resp_task_id = task_id task, success = True,
                  resp_output = Some out, confidence = 0.85,
                  execution_time = t_end - start_time, error_message = None,
                  metadata = [(''agent_type'', Str ''voice'')], timestamp = now\<rparr>
             | Inl e \<Rightarrow>
                 \<lparr>resp_agent_id = agent_id self, resp_task_id = task_id task, success = False,
                  resp_output = None, confidence = 0.0,
                  execution_time = t_end - start_time,
                  error_message = Some (exception_str e),
                  metadata = [(''agent_type'', Str ''voice''), (''error'', Str (exception_str e))],
                  timestamp = now\<rparr>);
          self1 = self\<lparr>state := IDLE, current_task := None\<rparr>;
          self2 = update_performance_metrics now self1 response
      in (self2, Inr response))"

text \<open>\<^verbatim>\<open>VoiceAgent.execute_task\<close> when nothing else runs during its sleep.\<close>

definition VoiceAgent_execute_task ::
  "real \<Rightarrow> real \<Rightarrow> datetime \<Rightarrow> BaseAgent \<Rightarrow> Task \<Rightarrow> BaseAgent \<times> (py_exception + AgentResponse)" where
  "VoiceAgent_execute_task start_time t_end now self task =
     VoiceAgent_execute_task_resume start_time t_end now
       (VoiceAgent_execute_task_enter self task) task"

text \<open>\<^verbatim>\<open>VoiceAgent.can_handle_task\<close>.\<close>

definition VoiceAgent_can_handle_task :: "BaseAgent \<Rightarrow> Task \<Rightarrow> real" where
  "VoiceAgent_can_handle_task self task =
     (if set (required_capabilities task)
           \<inter> {''speech_to_text'', ''text_to_speech'', ''voice_analysis''} \<noteq> {}
      then 0.9 else 0.0)"

definition VoiceAgent :: AgentMethods where
  "VoiceAgent =
     \<lparr>can_handle_task = VoiceAgent_can_handle_task,
      execute_task_enter = VoiceAgent_execute_task_enter,
      execute_task_resume = VoiceAgent_execute_task_resume\<rparr>"

section \<open>The orchestration matrix\<close>

record OrchestrationMetrics =
  total_tasks :: nat
  successful_tasks :: nat
  failed_tasks :: nat
  average_completion_time :: real
  agent_utilization :: "(string \<times> real) list"

text \<open>
  The state of \<^verbatim>\<open>AgentOrchestrationMatrix\<close>. A worker object is identified with its
  entry in \<open>agents\<close>: a running coroutine names its worker by \<open>agent_id\<close>. (Registering
  another object under an identifier whose worker is executing is outside this model.)
  The thread pool \<^verbatim>\<open>executor\<close> is never used for a task and is left out.
\<close>

record AgentOrchestrationMatrix =
  agents :: "(string \<times> BaseAgent) list"
  task_queue :: "Task list"
  active_tasks :: "(string \<times> Task) list"
  completed_tasks :: "(string \<times> AgentResponse) list"
  orchestration_metrics :: OrchestrationMetrics
  is_running :: bool

definition AgentOrchestrationMatrix_init :: AgentOrchestrationMatrix where
  "AgentOrchestrationMatrix_init =
     \<lparr>agents = [], task_queue = [], active_tasks = [], completed_tasks = [],
      orchestration_metrics =
        \<lparr>total_tasks = 0, successful_tasks = 0, failed_tasks = 0,
         average_completion_time = 0.0, agent_utilization = []\<rparr>,
      is_running = False\<rparr>"

definition register_agent :: "AgentOrchestrationMatrix \<Rightarrow> BaseAgent \<Rightarrow> AgentOrchestrationMatrix" where
  "register_agent self agent =
     self\<lparr>agents := AList.update (agent_id agent) agent (agents self),
          orchestration_metrics := (orchestration_metrics self)
            \<lparr>agent_utilization :=
               AList.update (agent_id agent) 0.0
                 (agent_utilization (orchestration_metrics self))\<rparr>\<rparr>"

text \<open>
  \<^verbatim>\<open>submit_task\<close> returns the task's identifier; the second component tells whether it
  creates the coroutine of the orchestration loop.
\<close>

definition submit_task :: "AgentOrchestrationMatrix \<Rightarrow> Task \<Rightarrow> AgentOrchestrationMatrix \<times> bool" where
  "submit_task self task =
     (self\<lparr>task_queue := task_queue self @ [task],
           orchestration_metrics := (orchestration_metrics self)
             \<lparr>total_tasks := total_tasks (orchestration_metrics self) + 1\<rparr>\<rparr>,
      \<not> is_running self)"

subsection \<open>Task status\<close>

datatype TaskStatus =
    Completed bool "py_dict option" real string
  | Active Task
  | Queued nat
  | NotFound

text \<open>\<^verbatim>\<open>list.index\<close>; \<open>None\<close> is its \<^verbatim>\<open>ValueError\<close>.\<close>

fun list_index :: "'a list \<Rightarrow> 'a \<Rightarrow> nat option" where
  "list_index [] x = None"
| "list_index (y # ys) x = (if y = x then Some 0 else map_option Suc (list_index ys x))"

definition get_task_status :: "AgentOrchestrationMatrix \<Rightarrow> string \<Rightarrow> py_exception + TaskStatus" where
  "get_task_status self tid =
     (case map_of (completed_tasks self) tid of
        Some response \<Rightarrow>
          Inr (Completed (success response) (resp_output response) (execution_time response)
                 (resp_agent_id response))
      | None \<Rightarrow>
          (case map_of (active_tasks self) tid of
             Some task \<Rightarrow> Inr (Active task)
           | None \<Rightarrow>
               (case find (\<lambda>task. task_id task = tid) (task_queue self) of
                  Some task \<Rightarrow>
                    (case list_index (task_queue self) task of
                       Some i \<Rightarrow> Inr (Queued i)
                     | None \<Rightarrow> Inl (ValueError ''x is not in list''))
                | None \<Rightarrow> Inr NotFound)))"

subsection \<open>Selection and dispatch\<close>

text \<open>
  \<^verbatim>\<open>list.sort(key=..., reverse=True)\<close>: the list is reversed, sorted stably in
  ascending order of the key, and reversed again, so that elements with equal keys keep
  their order.
\<close>

definition sort_reverse :: "('a \<Rightarrow> 'k::linorder) \<Rightarrow> 'a list \<Rightarrow> 'a list" where
  "sort_reverse key xs = rev (sort_key key (rev xs))"

text \<open>The loop of \<^verbatim>\<open>_select_best_agent\<close> over \<^verbatim>\<open>self.agents.values()\<close>.\<close>

fun agent_scores :: "AgentMethods \<Rightarrow> Task \<Rightarrow> BaseAgent list \<Rightarrow> (BaseAgent \<times> real) list" where
  "agent_scores W task [] = []"
| "agent_scores W task (agent # rest) =
     (if state agent \<noteq> IDLE then agent_scores W task rest
      else
        let confidence = can_handle_task W agent task in
        if confidence > 0 then
          (let performance_score = success_rate (performance_metrics agent);
               load_score = 1.0 - load_factor agent;
               composite_score = confidence * 0.5 + performance_score * 0.3 + load_score * 0.2
           in (agent, composite_score) # agent_scores W task rest)
        else agent_scores W task rest)"

definition select_best_agent :: "AgentMethods \<Rightarrow> AgentOrchestrationMatrix \<Rightarrow> Task \<Rightarrow> BaseAgent option" where
  "select_best_agent W self task =
     (if agents self = [] then None
      else
        let scores = agent_scores W task (map snd (agents self)) in
        if scores = [] then None
        else Some (fst (hd (sort_reverse snd scores))))"

text \<open>
  \<^verbatim>\<open>_assign_task_to_agent\<close>. The second component is the coroutine
  \<^verbatim>\<open>_execute_task_with_agent(best_agent, task)\<close> handed to \<^verbatim>\<open>asyncio.create_task\<close>, if
  any: the function returns \<^verbatim>\<open>True\<close> exactly when there is one. The coroutine does not
  start before the caller suspends.
\<close>

definition assign_task_to_agent ::
  "AgentMethods \<Rightarrow> AgentOrchestrationMatrix \<Rightarrow> Task \<Rightarrow> AgentOrchestrationMatrix \<times> (string \<times> Task) option" where
  "assign_task_to_agent W self task =
     (case select_best_agent W self task of
        Some best_agent \<Rightarrow>
          if state best_agent = IDLE
          then (self\<lparr>active_tasks := AList.update (task_id task) task (active_tasks self)\<rparr>,
                Some (agent_id best_agent, task))
          else (self, None)
      | None \<Rightarrow> (self, None))"

text \<open>The value \<^verbatim>\<open>_assign_task_to_agent\<close> returns: whether it created a coroutine.\<close>

definition assigned :: "AgentMethods \<Rightarrow> AgentOrchestrationMatrix \<Rightarrow> Task \<Rightarrow> bool" where
  "assigned W self task = (snd (assign_task_to_agent W self task) \<noteq> None)"

text \<open>
  The first loop of \<^verbatim>\<open>_process_task_queue\<close>: the state, \<^verbatim>\<open>tasks_to_remove\<close> and the
  coroutines created, in order.
\<close>

fun assign_loop ::
  "AgentMethods \<Rightarrow> AgentOrchestrationMatrix \<Rightarrow> Task list
     \<Rightarrow> AgentOrchestrationMatrix \<times> Task list \<times> (string \<times> Task) list" where
  "assign_loop W self [] = (self, [], [])"
| "assign_loop W self (task # rest) =
     (case assign_task_to_agent W self task of
        (self', Some c) \<Rightarrow>
          (case assign_loop W self' rest of
             (self'', tasks_to_remove, cs) \<Rightarrow> (self'', task # tasks_to_remove, c # cs))
      | (self', None) \<Rightarrow> assign_loop W self' rest)"

text \<open>\<^verbatim>\<open>list.remove\<close>, which raises \<^verbatim>\<open>ValueError\<close> when the element is absent.\<close>

definition list_remove :: "'a list \<Rightarrow> 'a \<Rightarrow> py_exception + 'a list" where
  "list_remove xs x =
     (if x \<in> set xs then Inr (remove1 x xs) else Inl (ValueError ''list.remove(x): x not in list''))"

text \<open>The second loop of \<^verbatim>\<open>_process_task_queue\<close>.\<close>

fun remove_loop :: "Task list \<Rightarrow> Task list \<Rightarrow> py_exception + Task list" where
  "remove_loop queue [] = Inr queue"
| "remove_loop queue (task # rest) =
     (case list_remove queue task of
        Inl e \<Rightarrow> Inl e
      | Inr queue' \<Rightarrow> remove_loop queue' rest)"

definition queue_sort_key :: "Task \<Rightarrow> int \<times> datetime" where
  "queue_sort_key t =
     (priority_value (priority t), (case deadline t of Some d \<Rightarrow> d | None \<Rightarrow> datetime_max))"

definition process_task_queue ::
  "AgentMethods \<Rightarrow> AgentOrchestrationMatrix
     \<Rightarrow> py_exception + (AgentOrchestrationMatrix \<times> (string \<times> Task) list)" where
  "process_task_queue W self =
     (if task_queue self = [] then Inr (self, [])
      else
        let self1 = self\<lparr>task_queue := sort_reverse queue_sort_key (task_queue self)\<rparr> in
        case assign_loop W self1 (task_queue self1) of
          (self2, tasks_to_remove, cs) \<Rightarrow>
            (case remove_loop (task_queue self2) tasks_to_remove of
               Inl e \<Rightarrow> Inl e
             | Inr queue \<Rightarrow> Inr (self2\<lparr>task_queue := queue\<rparr>, cs)))"

subsection \<open>The selector as the specification words it\<close>

text \<open>
  The composite score of the specification,
  \<^verbatim>\<open>0.5 * fitness + 0.3 * success_rate + 0.2 * (1 - load_factor)\<close>, and the workers that
  survive its filter: those in state Idle whose fitness for the task is not 0, in
  registration order. \<open>select_best_agent\<close> above is compared with these.
\<close>

definition composite_score :: "AgentMethods \<Rightarrow> Task \<Rightarrow> BaseAgent \<Rightarrow> real" where
  "composite_score W task a =
     0.5 * can_handle_task W a task + 0.3 * success_rate (performance_metrics a)
       + 0.2 * (1 - load_factor a)"

definition candidates :: "AgentMethods \<Rightarrow> AgentOrchestrationMatrix \<Rightarrow> Task \<Rightarrow> BaseAgent list" where
  "candidates W s task =
     filter (\<lambda>a. state a = IDLE \<and> can_handle_task W a task \<noteq> 0) (map snd (agents s))"

subsection \<open>Execution of an assigned task\<close>

text \<open>The \<^verbatim>\<open>except Exception as e\<close> block of \<^verbatim>\<open>_execute_task_with_agent\<close>.\<close>

definition handle_exception ::
  "datetime \<Rightarrow> AgentOrchestrationMatrix \<Rightarrow> string \<Rightarrow> Task \<Rightarrow> py_exception \<Rightarrow> AgentOrchestrationMatrix" where
  "handle_exception now self aid task e =
     (let error_response =
            \<lparr>resp_agent_id = aid, resp_task_id = task_id task, success = False,
             resp_output = None, confidence = 0.0, execution_time = 0.0,
             error_message = Some (exception_str e),
             metadata = [(''orchestration_error'', Bool True)], timestamp = now\<rparr>
      in self\<lparr>completed_tasks :=
                AList.update (task_id task) error_response (completed_tasks self),
              orchestration_metrics := (orchestration_metrics self)
                \<lparr>failed_tasks := failed_tasks (orchestration_metrics self) + 1\<rparr>\<rparr>)"

text \<open>The \<^verbatim>\<open>finally\<close> block of \<^verbatim>\<open>_execute_task_with_agent\<close>.\<close>

definition remove_from_active :: "AgentOrchestrationMatrix \<Rightarrow> Task \<Rightarrow> AgentOrchestrationMatrix" where
  "remove_from_active self task =
     (if map_of (active_tasks self) (task_id task) \<noteq> None
      then self\<lparr>active_tasks := AList.delete (task_id task) (active_tasks self)\<rparr>
      else self)"

text \<open>
  \<^verbatim>\<open>_execute_task_with_agent\<close> from its start until the worker suspends. The second
  component tells whether the coroutine is still running: the increment of the
  utilisation counter raises \<^verbatim>\<open>KeyError\<close> for an identifier without a counter, and the
  coroutine then ends through its handler.
\<close>

definition execute_task_with_agent_enter ::
  "AgentMethods \<Rightarrow> datetime \<Rightarrow> AgentOrchestrationMatrix \<Rightarrow> string \<Rightarrow> Task
     \<Rightarrow> AgentOrchestrationMatrix \<times> bool" where
  "execute_task_with_agent_enter W now self aid task =
     (case map_of (agent_utilization (orchestration_metrics self)) aid of
        None \<Rightarrow> (remove_from_active (handle_exception now self aid task (KeyError aid)) task, False)
      | Some u \<Rightarrow>
          (self\<lparr>orchestration_metrics := (orchestration_metrics self)
                   \<lparr>agent_utilization :=
                      AList.update aid (u + 1) (agent_utilization (orchestration_metrics self))\<rparr>,
                 agents := AList.map_entry aid (\<lambda>agent. execute_task_enter W agent task) (agents self)\<rparr>,
           True))"

text \<open>
  \<^verbatim>\<open>_execute_task_with_agent\<close> from the moment the worker resumes to its end.
  \<open>start_time\<close> is the clock reading the worker took when it started, \<open>t_end\<close> and \<open>now\<close>
  are \<^verbatim>\<open>time.time()\<close> and \<^verbatim>\<open>datetime.now()\<close> in this segment. The first case cannot
  arise for a coroutine that the dispatch created: its worker is registered.
\<close>

definition execute_task_with_agent_resume ::
  "AgentMethods \<Rightarrow> real \<Rightarrow> real \<Rightarrow> datetime \<Rightarrow> AgentOrchestrationMatrix \<Rightarrow> string \<Rightarrow> Task
     \<Rightarrow> AgentOrchestrationMatrix" where
  "execute_task_with_agent_resume W start_time t_end now self aid task =
     (case map_of (agents self) aid of
        None \<Rightarrow> self
      | Some agent \<Rightarrow>
          (case execute_task_resume W start_time t_end now agent task of
             (agent', result) \<Rightarrow>
               let self1 = self\<lparr>agents := AList.update aid agent' (agents self)\<rparr>;
                   self2 =
                     (case result of
                        Inr response \<Rightarrow>
                          self1\<lparr>completed_tasks :=
                                  AList.update (task_id task) response (completed_tasks self1),
                                orchestration_metrics :=
                                  (if success response
                                   then (orchestration_metrics self1)
                                     \<lparr>successful_tasks :=
                                        successful_tasks (orchestration_metrics self1) + 1\<rparr>
                                   else (orchestration_metrics self1)
                                     \<lparr>failed_tasks :=
                                        failed_tasks (orchestration_metrics self1) + 1\<rparr>)\<rparr>
                      | Inl e \<Rightarrow> handle_exception now self1 aid task e)
               in remove_from_active self2 task))"

subsection \<open>The deadline sweep and the loop\<close>

text \<open>The body of the loop of \<^verbatim>\<open>_monitor_active_tasks\<close> for an overdue task.\<close>

definition expire_task :: "datetime \<Rightarrow> AgentOrchestrationMatrix \<Rightarrow> string \<Rightarrow> AgentOrchestrationMatrix" where
  "expire_task current_time self tid =
     (let timeout_response =
            \<lparr>resp_agent_id = ''orchestration_matrix'', resp_task_id = tid, success = False,
             resp_output = None, confidence = 0.0, execution_time = 0.0,
             error_message = Some ''Task exceeded deadline'',
             metadata = [(''timeout'', Bool True)], timestamp = current_time\<rparr>
      in self\<lparr>completed_tasks := AList.update tid timeout_response (completed_tasks self),
              orchestration_metrics := (orchestration_metrics self)
                \<lparr>failed_tasks := failed_tasks (orchestration_metrics self) + 1\<rparr>,
              active_tasks := AList.delete tid (active_tasks self)\<rparr>)"

text \<open>The loop of \<^verbatim>\<open>_monitor_active_tasks\<close> over \<^verbatim>\<open>list(self.active_tasks.items())\<close>.\<close>

fun monitor_loop ::
  "datetime \<Rightarrow> AgentOrchestrationMatrix \<Rightarrow> (string \<times> Task) list \<Rightarrow> AgentOrchestrationMatrix" where
  "monitor_loop current_time self [] = self"
| "monitor_loop current_time self ((tid, task) # rest) =
     (case deadline task of
        Some d \<Rightarrow>
          if current_time > d then monitor_loop current_time (expire_task current_time self tid) rest
          else monitor_loop current_time self rest
      | None \<Rightarrow> monitor_loop current_time self rest)"

definition monitor_active_tasks :: "datetime \<Rightarrow> AgentOrchestrationMatrix \<Rightarrow> AgentOrchestrationMatrix" where
  "monitor_active_tasks current_time self = monitor_loop current_time self (active_tasks self)"

text \<open>The test of the sweep: \<^verbatim>\<open>task.deadline and current_time > task.deadline\<close>.\<close>

definition overdue :: "datetime \<Rightarrow> Task \<Rightarrow> bool" where
  "overdue current_time task =
     (case deadline task of Some d \<Rightarrow> current_time > d | None \<Rightarrow> False)"

text \<open>
  One turn of the \<^verbatim>\<open>while\<close> loop of \<^verbatim>\<open>_orchestration_loop\<close>, up to its
  \<^verbatim>\<open>asyncio.sleep(0.1)\<close>: the state and the coroutines created in this turn, which start
  during the sleep. \<open>loop_condition\<close> is the condition of the \<^verbatim>\<open>while\<close>.
\<close>

definition loop_condition :: "AgentOrchestrationMatrix \<Rightarrow> bool" where
  "loop_condition self = (task_queue self \<noteq> [] \<or> active_tasks self \<noteq> [])"

definition orchestration_loop_turn ::
  "AgentMethods \<Rightarrow> datetime \<Rightarrow> AgentOrchestrationMatrix
     \<Rightarrow> py_exception + (AgentOrchestrationMatrix \<times> (string \<times> Task) list)" where
  "orchestration_loop_turn W now self =
     (case (if task_queue self \<noteq> [] then process_task_queue W self else Inr (self, [])) of
        Inl e \<Rightarrow> Inl e
      | Inr (self1, cs) \<Rightarrow> Inr (monitor_active_tasks now self1, cs))"

section \<open>Example runs\<close>

text \<open>The task of \<^verbatim>\<open>test_orchestration_matrix\<close>, with a chosen identifier, priority and deadline.\<close>

definition sample_task :: "string \<Rightarrow> TaskPriority \<Rightarrow> datetime option \<Rightarrow> Task" where
  "sample_task tid p d =
     \<lparr>task_id = tid, description = ''Convert speech to text'',
      input_data = [(''audio_file'', Str ''/path/to/audio.wav'')],
      required_capabilities = [''speech_to_text''], priority = p, deadline = d,
      task_context = [(''user_id'', Str ''test_user'')], dependencies = [],
      created_at = 0, user_id = ''test_user''\<rparr>"

text \<open>A matrix with the voice worker registered, as in \<^verbatim>\<open>test_orchestration_matrix\<close>.\<close>

definition voice_matrix :: AgentOrchestrationMatrix where
  "voice_matrix = register_agent AgentOrchestrationMatrix_init (VoiceAgent_init 0)"

subsection \<open>A task that outlives its deadline\<close>

text \<open>
  One task with deadline 50 is submitted and dispatched at time 0; its coroutine starts
  during the sleep of the loop; the next turn of the loop, at time 100, sweeps the
  deadlines; the worker finishes afterwards.
\<close>

definition timeout_task :: Task where
  "timeout_task = sample_task ''t1'' HIGH (Some 50)"

definition timeout_s0 :: AgentOrchestrationMatrix where
  "timeout_s0 = fst (submit_task voice_matrix timeout_task)"

definition timeout_s1 :: AgentOrchestrationMatrix where
  "timeout_s1 = fst (projr (orchestration_loop_turn VoiceAgent 0 timeout_s0))"

definition timeout_s2 :: AgentOrchestrationMatrix where
  "timeout_s2 =
     fst (execute_task_with_agent_enter VoiceAgent 0 timeout_s1 ''voice_agent_001'' timeout_task)"

definition timeout_s3 :: AgentOrchestrationMatrix where
  "timeout_s3 = fst (projr (orchestration_loop_turn VoiceAgent 100 timeout_s2))"

definition timeout_s4 :: AgentOrchestrationMatrix where
  "timeout_s4 =
     execute_task_with_agent_resume VoiceAgent 0 1 1000 timeout_s3 ''voice_agent_001'' timeout_task"

text \<open>The same task submitted once more after its completion.\<close>

definition resubmitted :: AgentOrchestrationMatrix where
  "resubmitted = fst (submit_task timeout_s4 timeout_task)"

subsection \<open>A task that no worker can handle\<close>

definition unsupported_task :: Task where
  "unsupported_task =
     (sample_task ''b'' LOW None)\<lparr>required_capabilities := [''image_recognition'']\<rparr>"



subsection \<open>Three voice workers\<close>

text \<open>
  Voice workers with chosen identifiers and success rates, registered in the order
  \<open>voice_1\<close> (0.5), \<open>voice_2\<close> (0.8), \<open>voice_3\<close> (0.8).
\<close>

definition voice_worker :: "string \<Rightarrow> real \<Rightarrow> BaseAgent" where
  "voice_worker aid rate =
     (VoiceAgent_init 0)\<lparr>agent_id := aid,
        performance_metrics := (performance_metrics (VoiceAgent_init 0))\<lparr>success_rate := rate\<rparr>\<rparr>"

definition selector_matrix :: AgentOrchestrationMatrix where
  "selector_matrix =
     register_agent
       (register_agent
          (register_agent AgentOrchestrationMatrix_init (voice_worker ''voice_1'' 0.5))
          (voice_worker ''voice_2'' 0.8))
       (voice_worker ''voice_3'' 0.8)"

subsection \<open>A worker that raises\<close>

text \<open>
  The methods of a subclass of \<^verbatim>\<open>BaseAgent\<close> that accepts every task and whose
  \<^verbatim>\<open>execute_task\<close> marks the worker Active, suspends, and then raises without
  restoring its state.
\<close>

definition FaultyAgent :: AgentMethods where
  "FaultyAgent =
     \<lparr>can_handle_task = (\<lambda>self task. 1.0),
      execute_task_enter = (\<lambda>self task. self\<lparr>state := ACTIVE, current_task := Some task\<rparr>),
      execute_task_resume =
        (\<lambda>start_time t_end now self task. (self, Inl (ValueError ''worker failure'')))\<rparr>"

text \<open>
  One task is submitted, dispatched at time 0 and started; the worker raises when it
  resumes.
\<close>

definition faulty_task :: Task where
  "faulty_task = sample_task ''f1'' HIGH None"

definition faulty_s0 :: AgentOrchestrationMatrix where
  "faulty_s0 =
     fst (submit_task
            (register_agent AgentOrchestrationMatrix_init
               (BaseAgent_init 0 ''faulty_agent'' CUSTOM []))
            faulty_task)"

definition faulty_s1 :: AgentOrchestrationMatrix where
  "faulty_s1 = fst (projr (orchestration_loop_turn FaultyAgent 0 faulty_s0))"

definition faulty_s2 :: AgentOrchestrationMatrix where
  "faulty_s2 =
     fst (execute_task_with_agent_enter FaultyAgent 0 faulty_s1 ''faulty_agent'' faulty_task)"

definition faulty_s3 :: AgentOrchestrationMatrix where
  "faulty_s3 =
     execute_task_with_agent_resume FaultyAgent 0 1 10 faulty_s2 ''faulty_agent'' faulty_task"

subsection \<open>Two tasks and one worker\<close>

text \<open>
  Two tasks are submitted to the matrix with the voice worker; one turn of the loop
  dispatches; during the sleep of the loop the coroutines created start, in order.
\<close>

definition double_s0 :: AgentOrchestrationMatrix where
  "double_s0 =
     fst (submit_task (fst (submit_task voice_matrix (sample_task ''a'' HIGH None)))
            (sample_task ''b'' HIGH None))"

definition double_s1 :: AgentOrchestrationMatrix where
  "double_s1 = fst (projr (orchestration_loop_turn VoiceAgent 0 double_s0))"

definition double_s2 :: AgentOrchestrationMatrix where
  "double_s2 =
     fst (execute_task_with_agent_enter VoiceAgent 0 double_s1 ''voice_agent_001''
            (sample_task ''a'' HIGH None))"

definition double_s3 :: AgentOrchestrationMatrix where
  "double_s3 =
     fst (execute_task_with_agent_enter VoiceAgent 0 double_s2 ''voice_agent_001''
            (sample_task ''b'' HIGH None))"

subsection \<open>Equal priorities, different deadlines\<close>

text \<open>
  Three tasks of priority high, with deadlines 100, 200 and none, submitted in this
  order to a matrix without workers.
\<close>

definition deadline_s0 :: AgentOrchestrationMatrix where
  "deadline_s0 =
     fst (submit_task
       (fst (submit_task
          (fst (submit_task AgentOrchestrationMatrix_init (sample_task ''early'' HIGH (Some 100))))
          (sample_task ''late'' HIGH (Some 200))))
       (sample_task ''none'' HIGH None))"

section \<open>Running averages\<close>








section \<open>Status lookup\<close>

lemma list_index_find:
  "find (\<lambda>t. task_id t = tid) q = Some t \<Longrightarrow>
     \<exists>i. list_index q t = Some i \<and> i < length q \<and> q ! i = t
         \<and> (\<forall>j<i. task_id (q ! j) \<noteq> tid)"
proof (induction q)
  case Nil
  then show ?case by simp
next
  case (Cons x xs)
  show ?case
  proof (cases "task_id x = tid")
    case True
    with Cons.prems have "t = x" by simp
    then show ?thesis by simp
  next
    case False
    with Cons.prems have f: "find (\<lambda>t. task_id t = tid) xs = Some t" by simp
    then have "task_id t = tid" by (auto simp: find_Some_iff)
    with False have ne: "x \<noteq> t" by auto
    from Cons.IH [OF f] obtain i where i: "list_index xs t = Some i" "i < length xs"
      "xs ! i = t" "\<forall>j<i. task_id (xs ! j) \<noteq> tid" by blast
    have "\<forall>j<Suc i. task_id ((x # xs) ! j) \<noteq> tid"
    proof (intro allI impI)
      fix j assume "j < Suc i"
      then show "task_id ((x # xs) ! j) \<noteq> tid"
        using False i(4) by (cases j) auto
    qed
    with i ne show ?thesis by auto
  qed
qed

lemma find_task_id_None:
  "(find (\<lambda>t. task_id t = tid) q = None) = (tid \<notin> task_id ` set q)"
  by (auto simp: find_None_iff)

text \<open>
  C10. \<^verbatim>\<open>get_task_status\<close> looks the identifier up in the completed map, then in the
  in-flight map, then in the queue. An identifier in the completed map is reported as
  completed whatever else holds it; a queued one is reported with the index of the
  first task of the current queue that carries the identifier; \<^verbatim>\<open>not_found\<close> is the
  answer left; the lookup never raises.
\<close>

theorem get_task_status_precedence:
  "(\<forall>r. map_of (completed_tasks s) tid = Some r \<longrightarrow>
      get_task_status s tid =
        Inr (Completed (success r) (resp_output r) (execution_time r) (resp_agent_id r)))
   \<and> (\<forall>t. map_of (completed_tasks s) tid = None \<and> map_of (active_tasks s) tid = Some t \<longrightarrow>
      get_task_status s tid = Inr (Active t))
   \<and> (map_of (completed_tasks s) tid = None \<and> map_of (active_tasks s) tid = None
        \<and> tid \<in> task_id ` set (task_queue s) \<longrightarrow>
      (\<exists>i. get_task_status s tid = Inr (Queued i) \<and> i < length (task_queue s)
           \<and> task_id (task_queue s ! i) = tid
           \<and> (\<forall>j<i. task_id (task_queue s ! j) \<noteq> tid)))
   \<and> (map_of (completed_tasks s) tid = None \<and> map_of (active_tasks s) tid = None
        \<and> tid \<notin> task_id ` set (task_queue s) \<longrightarrow>
      get_task_status s tid = Inr NotFound)"
proof (intro conjI allI impI)
  fix r assume "map_of (completed_tasks s) tid = Some r"
  then show "get_task_status s tid =
      Inr (Completed (success r) (resp_output r) (execution_time r) (resp_agent_id r))"
    by (simp add: get_task_status_def)
next
  fix t assume "map_of (completed_tasks s) tid = None \<and> map_of (active_tasks s) tid = Some t"
  then show "get_task_status s tid = Inr (Active t)"
    by (simp add: get_task_status_def)
next
  assume a: "map_of (completed_tasks s) tid = None \<and> map_of (active_tasks s) tid = None
      \<and> tid \<in> task_id ` set (task_queue s)"
  then obtain t where f: "find (\<lambda>t. task_id t = tid) (task_queue s) = Some t"
    using find_task_id_None [of tid "task_queue s"] by (cases "find (\<lambda>t. task_id t = tid) (task_queue s)") auto
  from list_index_find [OF f] obtain i where i: "list_index (task_queue s) t = Some i"
    "i < length (task_queue s)" "task_queue s ! i = t"
    "\<forall>j<i. task_id (task_queue s ! j) \<noteq> tid" by blast
  from f have "task_id t = tid" by (auto simp: find_Some_iff)
  with a f i show "\<exists>i. get_task_status s tid = Inr (Queued i) \<and> i < length (task_queue s)
      \<and> task_id (task_queue s ! i) = tid \<and> (\<forall>j<i. task_id (task_queue s ! j) \<noteq> tid)"
    by (auto simp: get_task_status_def)
next
  assume "map_of (completed_tasks s) tid = None \<and> map_of (active_tasks s) tid = None
      \<and> tid \<notin> task_id ` set (task_queue s)"
  then show "get_task_status s tid = Inr NotFound"
    using find_task_id_None [of tid "task_queue s"] by (simp add: get_task_status_def)
qed

lemmas run_defs =
  sample_task_def voice_matrix_def register_agent_def AgentOrchestrationMatrix_init_def
  VoiceAgent_init_def BaseAgent_init_def submit_task_def orchestration_loop_turn_def
  process_task_queue_def sort_reverse_def queue_sort_key_def assign_task_to_agent_def
  select_best_agent_def VoiceAgent_def VoiceAgent_can_handle_task_def
  VoiceAgent_execute_task_enter_def VoiceAgent_execute_task_resume_def VoiceAgent_process_def
  execute_task_with_agent_enter_def execute_task_with_agent_resume_def
  monitor_active_tasks_def expire_task_def remove_from_active_def list_remove_def
  update_performance_metrics_def handle_exception_def Let_def

lemmas timeout_defs =
  timeout_s4_def timeout_s3_def timeout_s2_def timeout_s1_def timeout_s0_def timeout_task_def

text \<open>
  A task that was completed and is submitted again is in the completed map and in the
  queue at once, and is reported as completed.
\<close>

theorem get_task_status_precedence_witness:
  "map_of (completed_tasks resubmitted) ''t1'' \<noteq> None
   \<and> ''t1'' \<in> task_id ` set (task_queue resubmitted)
   \<and> get_task_status resubmitted ''t1'' =
       Inr (Completed True
             (Some [(''text'', Str ''Transcribed speech content''), (''confidence'', Num 0.92)])
             1 ''voice_agent_001'')"
proof -
  have c: "map_of (completed_tasks resubmitted) ''t1'' =
      Some \<lparr>resp_agent_id = ''voice_agent_001'', resp_task_id = ''t1'', success = True,
            resp_output = Some [(''text'', Str ''Transcribed speech content''),
                                (''confidence'', Num 0.92)],
            confidence = 0.85, execution_time = 1, error_message = None,
            metadata = [(''agent_type'', Str ''voice'')], timestamp = 1000\<rparr>"
    by (simp add: resubmitted_def timeout_defs run_defs)
  have q: "''t1'' \<in> task_id ` set (task_queue resubmitted)"
    by (simp add: resubmitted_def timeout_defs run_defs)
  from get_task_status_precedence [of resubmitted "''t1''"] c q show ?thesis by simp
qed

section \<open>The voice worker's execution\<close>

text \<open>
  C6. When \<^verbatim>\<open>VoiceAgent.execute_task\<close> resumes after its sleep it always returns a
  Result, whether its body succeeded or raised (the Result's success flag tells
  which), and it leaves the worker Idle, with no assigned task, and with its
  performance metrics updated with that Result. This holds for whatever state the
  worker is in when the coroutine resumes, and so for the whole execution as well.
\<close>

theorem voice_execute_restores_state:
  "\<exists>self' response.
      VoiceAgent_execute_task_resume start_time t_end now self task = (self', Inr response)
    \<and> state self' = IDLE \<and> current_task self' = None
    \<and> performance_metrics self'
        = performance_metrics (update_performance_metrics now self response)
    \<and> success response = (\<not> isl (VoiceAgent_process task))
    \<and> VoiceAgent_execute_task start_time t_end now self task = (self', Inr response)"
  by (cases "VoiceAgent_process task")
     (simp_all add: VoiceAgent_execute_task_resume_def VoiceAgent_execute_task_def
        VoiceAgent_execute_task_enter_def update_performance_metrics_def Let_def)

text \<open>
  A task that needs image recognition: the body of the voice worker raises, the
  worker returns a failure Result and is Idle again.
\<close>

theorem voice_execute_restores_state_witness:
  "isl (VoiceAgent_process unsupported_task)
   \<and> state (fst (VoiceAgent_execute_task 0 1 5 (VoiceAgent_init 0) unsupported_task)) = IDLE
   \<and> current_task (fst (VoiceAgent_execute_task 0 1 5 (VoiceAgent_init 0) unsupported_task)) = None
   \<and> map_sum id success (snd (VoiceAgent_execute_task 0 1 5 (VoiceAgent_init 0) unsupported_task))
       = Inr False"
proof -
  have i: "isl (VoiceAgent_process unsupported_task)"
    by (simp add: VoiceAgent_process_def unsupported_task_def sample_task_def)
  from voice_execute_restores_state [of 0 1 5 "VoiceAgent_init 0" unsupported_task]
  obtain self' response where
    "VoiceAgent_execute_task 0 1 5 (VoiceAgent_init 0) unsupported_task = (self', Inr response)"
    "state self' = IDLE" "current_task self' = None"
    "success response = (\<not> isl (VoiceAgent_process unsupported_task))"
    by blast
  with i show ?thesis by simp
qed

section \<open>The dispatch pass\<close>

lemma select_best_agent_agents:
  "agents s' = agents s \<Longrightarrow> select_best_agent W s' t = select_best_agent W s t"
  by (simp add: select_best_agent_def)

lemma assign_outcome_agents:
  "agents s' = agents s \<Longrightarrow> assigned W s' = assigned W s"
  by (rule ext)
     (simp add: assigned_def assign_task_to_agent_def select_best_agent_agents [of s' s]
        split: option.splits)

lemma assign_task_to_agent_frame:
  "assign_task_to_agent W s t = (s', r) \<Longrightarrow>
     agents s' = agents s \<and> task_queue s' = task_queue s
     \<and> completed_tasks s' = completed_tasks s
     \<and> orchestration_metrics s' = orchestration_metrics s \<and> is_running s' = is_running s
     \<and> (r = None \<longrightarrow> s' = s)
     \<and> (r \<noteq> None \<longrightarrow> active_tasks s' = AList.update (task_id t) t (active_tasks s))
     \<and> (\<forall>c. r = Some c \<longrightarrow> snd c = t)"
  by (auto simp: assign_task_to_agent_def split: option.splits if_splits)

lemma assign_loop_char:
  "assign_loop W s ts = (s', rm, cs) \<Longrightarrow>
     rm = filter (assigned W s) ts
     \<and> map snd cs = rm
     \<and> agents s' = agents s \<and> task_queue s' = task_queue s
     \<and> completed_tasks s' = completed_tasks s
     \<and> orchestration_metrics s' = orchestration_metrics s \<and> is_running s' = is_running s
     \<and> dom (map_of (active_tasks s')) = dom (map_of (active_tasks s)) \<union> task_id ` set rm"
proof (induction ts arbitrary: s s' rm cs)
  case Nil
  then show ?case by simp
next
  case (Cons t ts)
  obtain s1 r where a: "assign_task_to_agent W s t = (s1, r)"
    by (cases "assign_task_to_agent W s t")
  note fr = assign_task_to_agent_frame [OF a]
  have same: "assigned W s1 = assigned W s"
    using fr assign_outcome_agents [of s1 s] by blast
  have at: "assigned W s t = (r \<noteq> None)" using a by (simp add: assigned_def)
  obtain s2 rm2 cs2 where l: "assign_loop W s1 ts = (s2, rm2, cs2)"
    by (cases "assign_loop W s1 ts")
  note ih = Cons.IH [OF l]
  show ?case
  proof (cases r)
    case None
    with a l Cons.prems have eq: "s' = s2" "rm = rm2" "cs = cs2" by simp_all
    from fr None have "s1 = s" by simp
    with ih eq at None show ?thesis by (simp add: same)
  next
    case (Some c)
    with a l Cons.prems have eq: "s' = s2" "rm = t # rm2" "cs = c # cs2" by simp_all
    from fr Some have act: "active_tasks s1 = AList.update (task_id t) t (active_tasks s)"
      and c: "snd c = t" by simp_all
    have d: "dom (map_of (active_tasks s1)) = insert (task_id t) (dom (map_of (active_tasks s)))"
      by (simp add: act update_conv')
    from fr have f1: "agents s1 = agents s" "task_queue s1 = task_queue s"
      "completed_tasks s1 = completed_tasks s"
      "orchestration_metrics s1 = orchestration_metrics s" "is_running s1 = is_running s"
      by simp_all
    from ih have i1: "rm2 = filter (assigned W s) ts" "map snd cs2 = rm2"
      "agents s2 = agents s1" "task_queue s2 = task_queue s1"
      "completed_tasks s2 = completed_tasks s1"
      "orchestration_metrics s2 = orchestration_metrics s1" "is_running s2 = is_running s1"
      "dom (map_of (active_tasks s2)) = dom (map_of (active_tasks s1)) \<union> task_id ` set rm2"
      by (simp_all add: same)
    have dd: "dom (map_of (active_tasks s')) = dom (map_of (active_tasks s)) \<union> task_id ` set rm"
      unfolding eq i1(8) d by auto
    have r1: "rm = filter (assigned W s) (t # ts)" using eq at Some i1(1) by simp
    have r2: "map snd cs = rm" using eq c i1(2) by simp
    from r1 r2 dd f1 i1 eq show ?thesis by simp
  qed
qed

lemma remove_loop_filter_aux:
  "\<forall>y\<in>set ys. \<not> P y \<Longrightarrow>
     remove_loop (ys @ xs) (filter P xs) = Inr (ys @ filter (\<lambda>t. \<not> P t) xs)"
proof (induction xs arbitrary: ys)
  case Nil
  then show ?case by simp
next
  case (Cons x xs)
  show ?case
  proof (cases "P x")
    case True
    with Cons.prems have "x \<notin> set ys" by auto
    then have "remove1 x (ys @ x # xs) = ys @ xs" by (simp add: remove1_append)
    with True Cons.IH [OF Cons.prems] show ?thesis by (simp add: list_remove_def)
  next
    case False
    with Cons.prems have "\<forall>y\<in>set (ys @ [x]). \<not> P y" by simp
    from Cons.IH [OF this] False show ?thesis by simp
  qed
qed

lemma remove_loop_filter:
  "remove_loop xs (filter P xs) = Inr (filter (\<lambda>t. \<not> P t) xs)"
  using remove_loop_filter_aux [of "[]" P xs] by simp

lemma process_task_queue_char:
  "\<exists>s' cs. process_task_queue W s = Inr (s', cs)
     \<and> task_queue s' = filter (\<lambda>t. \<not> assigned W s t)
                         (sort_reverse queue_sort_key (task_queue s))
     \<and> map snd cs = filter (assigned W s)
                         (sort_reverse queue_sort_key (task_queue s))
     \<and> agents s' = agents s \<and> completed_tasks s' = completed_tasks s
     \<and> dom (map_of (active_tasks s')) = dom (map_of (active_tasks s)) \<union> task_id ` set (map snd cs)"
proof (cases "task_queue s = []")
  case True
  then show ?thesis by (simp add: process_task_queue_def sort_reverse_def)
next
  case False
  let ?q = "sort_reverse queue_sort_key (task_queue s)"
  let ?s1 = "s\<lparr>task_queue := ?q\<rparr>"
  obtain s2 rm cs where l: "assign_loop W ?s1 ?q = (s2, rm, cs)"
    by (cases "assign_loop W ?s1 ?q")
  have same: "assigned W ?s1 = assigned W s"
    using assign_outcome_agents [of ?s1 s] by simp
  from assign_loop_char [OF l]
  have rm: "rm = filter (assigned W s) ?q"
    and cs: "map snd cs = rm" and q2: "task_queue s2 = ?q"
    and fr: "agents s2 = agents s" "completed_tasks s2 = completed_tasks s"
    and d: "dom (map_of (active_tasks s2)) = dom (map_of (active_tasks s)) \<union> task_id ` set rm"
    by (simp_all add: same)
  have r: "remove_loop ?q rm = Inr (filter (\<lambda>t. \<not> assigned W s t) ?q)"
    unfolding rm using remove_loop_filter [of ?q "assigned W s"]
    by simp
  have "process_task_queue W s =
      Inr (s2\<lparr>task_queue := filter (\<lambda>t. \<not> assigned W s t) ?q\<rparr>, cs)"
    using False l r q2 by (simp add: process_task_queue_def Let_def)
  moreover have "snd ` set cs = set rm" using arg_cong [OF cs, of set] by simp
  ultimately show ?thesis using rm cs fr d by simp
qed



lemma sort_reverse_distinct: "distinct (sort_reverse k xs) = distinct xs"
  by (simp add: sort_reverse_def)








section \<open>The selector\<close>

lemma last_insort_key:
  "ys \<noteq> [] \<Longrightarrow> sorted (map f ys) \<Longrightarrow>
     last (insort_key f x ys) = (if f (last ys) < f x then x else last ys)"
proof (induction ys)
  case Nil
  then show ?case by simp
next
  case (Cons y ys)
  show ?case
  proof (cases "ys = []")
    case True
    then show ?thesis by auto
  next
    case False
    from Cons.prems have s: "sorted (map f ys)" and le: "f y \<le> f (last ys)"
      using False by auto
    show ?thesis
    proof (cases "f x \<le> f y")
      case True
      with le False show ?thesis by auto
    next
      case False
      have "insort_key f x ys \<noteq> []" by (cases ys) auto
      with False \<open>ys \<noteq> []\<close> Cons.IH [OF \<open>ys \<noteq> []\<close> s] show ?thesis by simp
    qed
  qed
qed

lemma hd_sort_reverse:
  "xs \<noteq> [] \<Longrightarrow>
     \<exists>pre post. xs = pre @ hd (sort_reverse f xs) # post
       \<and> (\<forall>y\<in>set pre. f y < f (hd (sort_reverse f xs)))
       \<and> (\<forall>y\<in>set post. f y \<le> f (hd (sort_reverse f xs)))"
proof (induction xs rule: rev_induct)
  case Nil
  then show ?case by simp
next
  case (snoc x xs)
  show ?case
  proof (cases "xs = []")
    case True
    have "[x] = [] @ x # []" by simp
    then have "\<exists>pre post. [x] = pre @ x # post
        \<and> (\<forall>y\<in>set pre. f y < f x) \<and> (\<forall>y\<in>set post. f y \<le> f x)"
      by (metis empty_iff list.set(1))
    with True show ?thesis by (simp add: sort_reverse_def)
  next
    case False
    let ?m = "hd (sort_reverse f xs)"
    have ne: "sort_key f (rev xs) \<noteq> []" using False by (metis length_sort length_rev length_0_conv)
    have m: "?m = last (sort_key f (rev xs))"
      using ne by (simp add: sort_reverse_def hd_rev)
    have ins: "insort_key f x (sort_key f (rev xs)) \<noteq> []"
      by (cases "sort_key f (rev xs)") auto
    have h: "hd (sort_reverse f (xs @ [x])) = (if f ?m < f x then x else ?m)"
      using ins ne last_insort_key [of "sort_key f (rev xs)" f x]
      by (simp add: sort_reverse_def hd_rev m)
    from snoc.IH [OF False] obtain pre post where
      d: "xs = pre @ ?m # post" and p1: "\<forall>y\<in>set pre. f y < f ?m"
      and p2: "\<forall>y\<in>set post. f y \<le> f ?m" by blast
    show ?thesis
    proof (cases "f ?m < f x")
      case True
      have all: "\<forall>y\<in>set xs. f y < f x"
      proof
        fix y assume "y \<in> set xs"
        with d have "y \<in> set pre \<or> y = ?m \<or> y \<in> set post" by (metis Un_iff set_append set_ConsD)
        with p1 p2 True show "f y < f x" by force
      qed
      have "xs @ [x] = xs @ x # []" by simp
      with all h True show ?thesis by (metis empty_iff list.set(1))
    next
      case False
      then have "xs @ [x] = pre @ ?m # (post @ [x])" "\<forall>y\<in>set (post @ [x]). f y \<le> f ?m"
        using d p2 by auto
      with p1 h False show ?thesis by metis
    qed
  qed
qed

lemma agent_scores_eq:
  "agent_scores W task as =
     map (\<lambda>a. (a, composite_score W task a))
       (filter (\<lambda>a. state a = IDLE \<and> 0 < can_handle_task W a task) as)"
  by (induction as) (simp_all add: Let_def composite_score_def)


text \<open>
  C4. With fitness scores that are not negative (they are scores in [0,1]), the
  selector considers the Idle workers of non-zero fitness, in registration order. It
  returns none when there is none. Otherwise it returns one of them whose composite
  score \<open>0.5 * fitness + 0.3 * success_rate + 0.2 * (1 - load_factor)\<close> is strictly
  greater than that of every candidate registered before it and at least that of
  every candidate registered after it: the maximum, ties going to the earliest
  registration.
\<close>

theorem select_best_agent_correct:
  assumes "\<forall>a\<in>set (map snd (agents s)). 0 \<le> can_handle_task W a task"
  shows "(candidates W s task = [] \<longrightarrow> select_best_agent W s task = None)
    \<and> (candidates W s task \<noteq> [] \<longrightarrow>
         (\<exists>pre a post. select_best_agent W s task = Some a
            \<and> candidates W s task = pre @ a # post
            \<and> (\<forall>b\<in>set pre. composite_score W task b < composite_score W task a)
            \<and> (\<forall>b\<in>set post. composite_score W task b \<le> composite_score W task a)))"
proof -
  let ?c = "candidates W s task"
  let ?sc = "map (\<lambda>a. (a, composite_score W task a)) ?c"
  have f: "filter (\<lambda>a. state a = IDLE \<and> 0 < can_handle_task W a task) (map snd (agents s)) = ?c"
    unfolding candidates_def using assms by (intro filter_cong) (auto simp: less_le)
  have sc: "agent_scores W task (map snd (agents s)) = ?sc"
    by (simp only: agent_scores_eq f)
  have none: "?c = [] \<longrightarrow> select_best_agent W s task = None"
    by (simp add: select_best_agent_def sc Let_def)
  have some: "?c \<noteq> [] \<longrightarrow>
         (\<exists>pre a post. select_best_agent W s task = Some a \<and> ?c = pre @ a # post
            \<and> (\<forall>b\<in>set pre. composite_score W task b < composite_score W task a)
            \<and> (\<forall>b\<in>set post. composite_score W task b \<le> composite_score W task a))"
  proof
    assume ne: "?c \<noteq> []"
    then have ag: "agents s \<noteq> []" by (auto simp: candidates_def)
    let ?h = "hd (sort_reverse snd ?sc)"
    from ne have "?sc \<noteq> []" by simp
    from hd_sort_reverse [OF this, of snd] obtain pre post where
      d: "?sc = pre @ ?h # post" and p1: "\<forall>y\<in>set pre. snd y < snd ?h"
      and p2: "\<forall>y\<in>set post. snd y \<le> snd ?h" by blast
    have sel: "select_best_agent W s task = Some (fst ?h)"
      using ne ag by (simp add: select_best_agent_def sc Let_def)
    have allsc: "\<forall>y\<in>set ?sc. snd y = composite_score W task (fst y)" by auto
    have hin: "?h \<in> set ?sc" "set pre \<subseteq> set ?sc" "set post \<subseteq> set ?sc"
      using arg_cong [OF d, of set] by auto
    have c: "?c = map fst pre @ fst ?h # map fst post"
      using arg_cong [OF d, of "map fst"] by (simp add: comp_def)
    have q1: "\<forall>b\<in>set (map fst pre). composite_score W task b < composite_score W task (fst ?h)"
      using p1 allsc hin by fastforce
    have q2: "\<forall>b\<in>set (map fst post). composite_score W task b \<le> composite_score W task (fst ?h)"
      using p2 allsc hin by fastforce
    from sel c q1 q2 show "\<exists>pre a post. select_best_agent W s task = Some a \<and> ?c = pre @ a # post
            \<and> (\<forall>b\<in>set pre. composite_score W task b < composite_score W task a)
            \<and> (\<forall>b\<in>set post. composite_score W task b \<le> composite_score W task a)"
      by blast
  qed
  from none some show ?thesis by blast
qed

lemmas selector_defs = selector_matrix_def voice_worker_def

text \<open>
  Three idle voice workers of fitness 0.9 and load 0 with success rates 0.5, 0.8 and
  0.8: the scores are 0.8, 0.89 and 0.89, and the second worker is selected.
\<close>

theorem select_best_agent_correct_witness:
  "candidates VoiceAgent selector_matrix (sample_task ''a'' HIGH None)
     = [voice_worker ''voice_1'' 0.5, voice_worker ''voice_2'' 0.8, voice_worker ''voice_3'' 0.8]
   \<and> composite_score VoiceAgent (sample_task ''a'' HIGH None) (voice_worker ''voice_1'' 0.5) = 0.8
   \<and> composite_score VoiceAgent (sample_task ''a'' HIGH None) (voice_worker ''voice_2'' 0.8) = 0.89
   \<and> composite_score VoiceAgent (sample_task ''a'' HIGH None) (voice_worker ''voice_3'' 0.8) = 0.89
   \<and> select_best_agent VoiceAgent selector_matrix (sample_task ''a'' HIGH None)
       = Some (voice_worker ''voice_2'' 0.8)
   \<and> (\<exists>pre a post.
        select_best_agent VoiceAgent selector_matrix (sample_task ''a'' HIGH None) = Some a
        \<and> candidates VoiceAgent selector_matrix (sample_task ''a'' HIGH None) = pre @ a # post
        \<and> (\<forall>b\<in>set pre. composite_score VoiceAgent (sample_task ''a'' HIGH None) b
               < composite_score VoiceAgent (sample_task ''a'' HIGH None) a)
        \<and> (\<forall>b\<in>set post. composite_score VoiceAgent (sample_task ''a'' HIGH None) b
               \<le> composite_score VoiceAgent (sample_task ''a'' HIGH None) a))"
proof -
  let ?t = "sample_task ''a'' HIGH None"
  have h: "\<forall>a\<in>set (map snd (agents selector_matrix)). 0 \<le> can_handle_task VoiceAgent a ?t"
    by (simp add: VoiceAgent_def VoiceAgent_can_handle_task_def)
  have c: "candidates VoiceAgent selector_matrix ?t
     = [voice_worker ''voice_1'' 0.5, voice_worker ''voice_2'' 0.8, voice_worker ''voice_3'' 0.8]"
    by (simp add: candidates_def selector_defs run_defs)
  have s1: "composite_score VoiceAgent ?t (voice_worker ''voice_1'' 0.5) = 0.8"
    by (simp add: composite_score_def selector_defs run_defs)
  have s2: "composite_score VoiceAgent ?t (voice_worker ''voice_2'' 0.8) = 0.89"
    by (simp add: composite_score_def selector_defs run_defs)
  have s3: "composite_score VoiceAgent ?t (voice_worker ''voice_3'' 0.8) = 0.89"
    by (simp add: composite_score_def selector_defs run_defs)
  have sel: "select_best_agent VoiceAgent selector_matrix ?t = Some (voice_worker ''voice_2'' 0.8)"
    by (simp add: selector_defs run_defs)
  from c have ne: "candidates VoiceAgent selector_matrix ?t \<noteq> []" by simp
  from select_best_agent_correct [OF h] ne c s1 s2 s3 sel show ?thesis by blast
qed


section \<open>Exceptions, deadlines and counters\<close>

lemmas faulty_defs = faulty_s3_def faulty_s2_def faulty_s1_def faulty_s0_def faulty_task_def
  FaultyAgent_def
lemmas double_defs = double_s3_def double_s2_def double_s1_def double_s0_def


lemma remove_from_active_frame:
  "map_of (active_tasks (remove_from_active s task)) (task_id task) = None
   \<and> completed_tasks (remove_from_active s task) = completed_tasks s
   \<and> orchestration_metrics (remove_from_active s task) = orchestration_metrics s
   \<and> agents (remove_from_active s task) = agents s
   \<and> task_queue (remove_from_active s task) = task_queue s
   \<and> is_running (remove_from_active s task) = is_running s"
  by (simp add: remove_from_active_def delete_conv')

lemma orchestration_loop_turn_returns:
  "\<exists>s' cs. orchestration_loop_turn W now s = Inr (s', cs)"
  using process_task_queue_char [of W s] by (auto simp: orchestration_loop_turn_def)

text \<open>
  C7, as amended. When the worker's \<^verbatim>\<open>execute_task\<close> raises, the exception is caught in
  \<^verbatim>\<open>_execute_task_with_agent\<close>: a failure Result whose metadata marks an orchestration
  error is recorded as the task's completion, the failure counter is incremented and
  the success counter is not, the task leaves the in-flight map, the queue and the
  running flag are untouched and the next turn of the loop returns normally. The
  worker object is left exactly as its \<^verbatim>\<open>execute_task\<close> left it: the handler does not
  reset its state.
\<close>

theorem dispatch_boundary_catches:
  assumes "map_of (agents s) aid = Some agent"
    and "execute_task_resume W start_time t_end now agent task = (agent', Inl e)"
  shows "map_of (completed_tasks (execute_task_with_agent_resume W start_time t_end now s aid task))
           (task_id task)
         = Some \<lparr>resp_agent_id = aid, resp_task_id = task_id task, success = False,
                 resp_output = None, confidence = 0, execution_time = 0,
                 error_message = Some (exception_str e),
                 metadata = [(''orchestration_error'', Bool True)], timestamp = now\<rparr>
    \<and> failed_tasks (orchestration_metrics
          (execute_task_with_agent_resume W start_time t_end now s aid task))
        = failed_tasks (orchestration_metrics s) + 1
    \<and> successful_tasks (orchestration_metrics
          (execute_task_with_agent_resume W start_time t_end now s aid task))
        = successful_tasks (orchestration_metrics s)
    \<and> map_of (active_tasks (execute_task_with_agent_resume W start_time t_end now s aid task))
          (task_id task) = None
    \<and> task_queue (execute_task_with_agent_resume W start_time t_end now s aid task) = task_queue s
    \<and> is_running (execute_task_with_agent_resume W start_time t_end now s aid task) = is_running s
    \<and> (\<exists>s'' cs. orchestration_loop_turn W now'
          (execute_task_with_agent_resume W start_time t_end now s aid task) = Inr (s'', cs))
    \<and> map_of (agents (execute_task_with_agent_resume W start_time t_end now s aid task)) aid
        = Some agent'"
proof -
  let ?s1 = "s\<lparr>agents := AList.update aid agent' (agents s)\<rparr>"
  have r: "execute_task_with_agent_resume W start_time t_end now s aid task
      = remove_from_active (handle_exception now ?s1 aid task e) task"
    using assms by (simp add: execute_task_with_agent_resume_def Let_def)
  show ?thesis
    unfolding r
    using orchestration_loop_turn_returns [of W now'
        "remove_from_active (handle_exception now ?s1 aid task e) task"]
    by (simp add: remove_from_active_frame handle_exception_def Let_def update_conv')
qed


text \<open>
  The run of the raising worker: the hypotheses hold for the state in which its
  coroutine resumes, and the conclusions are those of the theorem.
\<close>

theorem dispatch_boundary_catches_witness:
  "map_of (agents faulty_s2) ''faulty_agent''
     = Some ((BaseAgent_init 0 ''faulty_agent'' CUSTOM [])
               \<lparr>state := ACTIVE, current_task := Some faulty_task\<rparr>)
   \<and> map_of (completed_tasks faulty_s3) ''f1''
     = Some \<lparr>resp_agent_id = ''faulty_agent'', resp_task_id = ''f1'', success = False,
             resp_output = None, confidence = 0, execution_time = 0,
             error_message = Some ''worker failure'',
             metadata = [(''orchestration_error'', Bool True)], timestamp = 10\<rparr>
   \<and> failed_tasks (orchestration_metrics faulty_s3) = 1
   \<and> successful_tasks (orchestration_metrics faulty_s3) = 0
   \<and> map_of (active_tasks faulty_s3) ''f1'' = None
   \<and> map_of (agents faulty_s3) ''faulty_agent''
     = Some ((BaseAgent_init 0 ''faulty_agent'' CUSTOM [])
               \<lparr>state := ACTIVE, current_task := Some faulty_task\<rparr>)"
proof -
  let ?a = "(BaseAgent_init 0 ''faulty_agent'' CUSTOM [])
               \<lparr>state := ACTIVE, current_task := Some faulty_task\<rparr>"
  have h1: "map_of (agents faulty_s2) ''faulty_agent'' = Some ?a"
    by (simp add: faulty_defs run_defs)
  have h2: "execute_task_resume FaultyAgent 0 1 10 ?a faulty_task
      = (?a, Inl (ValueError ''worker failure''))"
    by (simp add: FaultyAgent_def)
  have m: "failed_tasks (orchestration_metrics faulty_s2) = 0"
    "successful_tasks (orchestration_metrics faulty_s2) = 0"
    by (simp_all add: faulty_defs run_defs)
  have t: "task_id faulty_task = ''f1''" by (simp add: faulty_task_def sample_task_def)
  from dispatch_boundary_catches [OF h1 h2, of 20] h1 m t show ?thesis
    by (simp add: faulty_s3_def)
qed

text \<open>
  C7 as stated fails: after the exception of the raising worker was caught and
  recorded, the worker is still Active, and the selector never offers it again.
\<close>

theorem raising_worker_left_active:
  "get_task_status faulty_s3 ''f1'' = Inr (Completed False None 0 ''faulty_agent'')
   \<and> map_option state (map_of (agents faulty_s3) ''faulty_agent'') = Some ACTIVE
   \<and> select_best_agent FaultyAgent faulty_s3 faulty_task = None"
  by (simp add: faulty_defs run_defs get_task_status_def)

lemma expire_task_frame:
  "map_of (completed_tasks (expire_task ct s tid)) tid
     = Some \<lparr>resp_agent_id = ''orchestration_matrix'', resp_task_id = tid, success = False,
             resp_output = None, confidence = 0, execution_time = 0,
             error_message = Some ''Task exceeded deadline'',
             metadata = [(''timeout'', Bool True)], timestamp = ct\<rparr>
   \<and> agents (expire_task ct s tid) = agents s
   \<and> successful_tasks (orchestration_metrics (expire_task ct s tid))
       = successful_tasks (orchestration_metrics s)
   \<and> failed_tasks (orchestration_metrics (expire_task ct s tid))
       = failed_tasks (orchestration_metrics s) + 1"
  by (simp add: expire_task_def Let_def update_conv')

lemma resume_returned:
  assumes "map_of (agents s) aid = Some agent"
    and "execute_task_resume W start_time t_end now agent task = (agent', Inr response)"
  shows "execute_task_with_agent_resume W start_time t_end now s aid task
     = remove_from_active
         (s\<lparr>agents := AList.update aid agent' (agents s),
            completed_tasks := AList.update (task_id task) response (completed_tasks s),
            orchestration_metrics :=
              (if success response
               then (orchestration_metrics s)
                 \<lparr>successful_tasks := successful_tasks (orchestration_metrics s) + 1\<rparr>
               else (orchestration_metrics s)
                 \<lparr>failed_tasks := failed_tasks (orchestration_metrics s) + 1\<rparr>)\<rparr>) task"
  using assms by (simp add: execute_task_with_agent_resume_def Let_def)

lemma resume_raised:
  assumes "map_of (agents s) aid = Some agent"
    and "execute_task_resume W start_time t_end now agent task = (agent', Inl e)"
  shows "execute_task_with_agent_resume W start_time t_end now s aid task
     = remove_from_active
         (handle_exception now (s\<lparr>agents := AList.update aid agent' (agents s)\<rparr>) aid task e) task"
  using assms by (simp add: execute_task_with_agent_resume_def Let_def)

text \<open>
  C3, as amended. The last writer wins: after the sweep has recorded the timeout
  Result of a task, the Result that the worker returns for the same task replaces it in
  the completed map.
\<close>

theorem late_result_overwrites_timeout:
  assumes "map_of (agents s) aid = Some agent"
    and "execute_task_resume W start_time t_end now agent task = (agent', Inr response)"
  shows "map_of (completed_tasks (expire_task ct s (task_id task))) (task_id task)
           = Some \<lparr>resp_agent_id = ''orchestration_matrix'', resp_task_id = task_id task,
                   success = False, resp_output = None, confidence = 0, execution_time = 0,
                   error_message = Some ''Task exceeded deadline'',
                   metadata = [(''timeout'', Bool True)], timestamp = ct\<rparr>
    \<and> map_of (completed_tasks
          (execute_task_with_agent_resume W start_time t_end now
             (expire_task ct s (task_id task)) aid task)) (task_id task)
        = Some response"
proof -
  let ?s1 = "expire_task ct s (task_id task)"
  have a: "map_of (agents ?s1) aid = Some agent" using assms(1) by (simp add: expire_task_frame)
  show ?thesis
    unfolding resume_returned [OF a assms(2)]
    by (simp add: remove_from_active_frame expire_task_frame update_conv')
qed

lemma timeout_sweep: "timeout_s3 = expire_task 100 timeout_s2 ''t1''"
  by (simp add: timeout_defs run_defs)

text \<open>
  The task that outlives its deadline: the sweep records the timeout Result, the voice
  worker's own Result replaces it.
\<close>

theorem late_result_overwrites_timeout_witness:
  "map_of (completed_tasks timeout_s3) ''t1''
     = Some \<lparr>resp_agent_id = ''orchestration_matrix'', resp_task_id = ''t1'',
             success = False, resp_output = None, confidence = 0, execution_time = 0,
             error_message = Some ''Task exceeded deadline'',
             metadata = [(''timeout'', Bool True)], timestamp = 100\<rparr>
   \<and> map_of (completed_tasks timeout_s4) ''t1''
     = Some \<lparr>resp_agent_id = ''voice_agent_001'', resp_task_id = ''t1'', success = True,
             resp_output = Some [(''text'', Str ''Transcribed speech content''),
                                 (''confidence'', Num 0.92)],
             confidence = 0.85, execution_time = 1, error_message = None,
             metadata = [(''agent_type'', Str ''voice'')], timestamp = 1000\<rparr>"
proof -
  let ?a = "(VoiceAgent_init 0)\<lparr>state := ACTIVE, current_task := Some timeout_task\<rparr>"
  let ?r = "\<lparr>resp_agent_id = ''voice_agent_001'', resp_task_id = ''t1'', success = True,
             resp_output = Some [(''text'', Str ''Transcribed speech content''),
                                 (''confidence'', Num 0.92)],
             confidence = 0.85, execution_time = 1, error_message = None,
             metadata = [(''agent_type'', Str ''voice'')], timestamp = 1000\<rparr>"
  have h1: "map_of (agents timeout_s2) ''voice_agent_001'' = Some ?a"
    by (simp add: timeout_defs run_defs)
  have h2: "execute_task_resume VoiceAgent 0 1 1000 ?a timeout_task
      = (update_performance_metrics 1000 (?a\<lparr>state := IDLE, current_task := None\<rparr>) ?r, Inr ?r)"
    by (simp add: VoiceAgent_def VoiceAgent_execute_task_resume_def VoiceAgent_process_def
        VoiceAgent_init_def BaseAgent_init_def timeout_task_def sample_task_def Let_def)
  have t: "task_id timeout_task = ''t1''" by (simp add: timeout_task_def sample_task_def)
  from late_result_overwrites_timeout [OF h1 h2, of 100] t show ?thesis
    by (simp add: timeout_s4_def timeout_sweep)
qed

text \<open>
  C3 as stated fails: in the run of the task that outlives its deadline the completed
  map holds the timeout Result after the sweep and the worker's successful Result
  after the worker has finished.
\<close>

theorem late_result_replaces_timeout_result:
  "map_option resp_agent_id (map_of (completed_tasks timeout_s3) ''t1'')
     = Some ''orchestration_matrix''
   \<and> map_option success (map_of (completed_tasks timeout_s3) ''t1'') = Some False
   \<and> map_option resp_agent_id (map_of (completed_tasks timeout_s4) ''t1'')
     = Some ''voice_agent_001''
   \<and> map_option success (map_of (completed_tasks timeout_s4) ''t1'') = Some True
   \<and> map_of (completed_tasks timeout_s4) ''t1'' \<noteq> map_of (completed_tasks timeout_s3) ''t1''"
  by (simp add: timeout_defs run_defs)


lemma monitor_loop_counters:
  "successful_tasks (orchestration_metrics (monitor_loop ct s xs))
     = successful_tasks (orchestration_metrics s)
   \<and> failed_tasks (orchestration_metrics (monitor_loop ct s xs))
     = failed_tasks (orchestration_metrics s) + length (filter (\<lambda>p. overdue ct (snd p)) xs)"
proof (induction xs arbitrary: s)
  case Nil
  show ?case by simp
next
  case (Cons p xs)
  obtain tid task where p: "p = (tid, task)" by (cases p)
  show ?case
  proof (cases "overdue ct task")
    case True
    then obtain d where d: "deadline task = Some d" "ct > d"
      by (auto simp: overdue_def split: option.splits)
    with True Cons.IH [of "expire_task ct s tid"] show ?thesis
      by (simp add: p expire_task_frame)
  next
    case False
    with Cons.IH [of s] show ?thesis
      by (auto simp: p overdue_def split: option.splits)
  qed
qed

lemma resume_counters:
  assumes "map_of (agents s) aid = Some agent"
  shows "successful_tasks (orchestration_metrics
            (execute_task_with_agent_resume W start_time t_end now s aid task))
         + failed_tasks (orchestration_metrics
            (execute_task_with_agent_resume W start_time t_end now s aid task))
       = successful_tasks (orchestration_metrics s) + failed_tasks (orchestration_metrics s) + 1"
proof -
  obtain agent' result where r: "execute_task_resume W start_time t_end now agent task = (agent', result)"
    by (cases "execute_task_resume W start_time t_end now agent task")
  show ?thesis
  proof (cases result)
    case (Inl e)
    show ?thesis
      unfolding resume_raised [OF assms r [unfolded Inl]]
      by (simp add: remove_from_active_frame handle_exception_def Let_def)
  next
    case (Inr response)
    show ?thesis
      unfolding resume_returned [OF assms r [unfolded Inr]]
      by (simp add: remove_from_active_frame)
  qed
qed

text \<open>
  C9, as amended. The pair of counters is incremented once per recorded completion:
  the sweep adds one failure for every overdue in-flight task and no success; the end
  of an execution coroutine adds one to exactly one of the two counters. A task that
  the sweep expires while its worker executes is therefore counted twice, once as a
  failure by the sweep and once more when the worker's execution ends.
\<close>

theorem counters_once_per_completion_event:
  assumes "map_of (agents s) aid = Some agent"
  shows "successful_tasks (orchestration_metrics (monitor_active_tasks ct s))
           = successful_tasks (orchestration_metrics s)
    \<and> failed_tasks (orchestration_metrics (monitor_active_tasks ct s))
           = failed_tasks (orchestration_metrics s)
             + length (filter (\<lambda>p. overdue ct (snd p)) (active_tasks s))
    \<and> successful_tasks (orchestration_metrics
            (execute_task_with_agent_resume W start_time t_end now s aid task))
         + failed_tasks (orchestration_metrics
            (execute_task_with_agent_resume W start_time t_end now s aid task))
       = successful_tasks (orchestration_metrics s) + failed_tasks (orchestration_metrics s) + 1
    \<and> successful_tasks (orchestration_metrics
            (execute_task_with_agent_resume W start_time t_end now
               (expire_task ct s (task_id task)) aid task))
         + failed_tasks (orchestration_metrics
            (execute_task_with_agent_resume W start_time t_end now
               (expire_task ct s (task_id task)) aid task))
       = successful_tasks (orchestration_metrics s) + failed_tasks (orchestration_metrics s) + 2"
proof -
  have a: "map_of (agents (expire_task ct s (task_id task))) aid = Some agent"
    using assms by (simp add: expire_task_frame)
  show ?thesis
    using monitor_loop_counters [of ct s "active_tasks s"]
      resume_counters [OF assms, of W start_time t_end now task]
      resume_counters [OF a, of W start_time t_end now task]
    by (simp add: monitor_active_tasks_def expire_task_frame)
qed

text \<open>
  The task that outlives its deadline: both counters are 0 when the worker starts, the
  sweep at time 100 finds the task overdue and counts a failure, and the counters add
  up to 2 after the worker has finished.
\<close>

theorem counters_once_per_completion_event_witness:
  "successful_tasks (orchestration_metrics timeout_s2)
     + failed_tasks (orchestration_metrics timeout_s2) = 0
   \<and> filter (\<lambda>p. overdue 100 (snd p)) (active_tasks timeout_s2) = [(''t1'', timeout_task)]
   \<and> failed_tasks (orchestration_metrics (monitor_active_tasks 100 timeout_s2)) = 1
   \<and> successful_tasks (orchestration_metrics timeout_s4)
     + failed_tasks (orchestration_metrics timeout_s4) = 2"
proof -
  let ?a = "(VoiceAgent_init 0)\<lparr>state := ACTIVE, current_task := Some timeout_task\<rparr>"
  have h1: "map_of (agents timeout_s2) ''voice_agent_001'' = Some ?a"
    by (simp add: timeout_defs run_defs)
  have z: "successful_tasks (orchestration_metrics timeout_s2) = 0"
    "failed_tasks (orchestration_metrics timeout_s2) = 0"
    by (simp_all add: timeout_defs run_defs)
  have f: "filter (\<lambda>p. overdue 100 (snd p)) (active_tasks timeout_s2) = [(''t1'', timeout_task)]"
    by (simp add: overdue_def timeout_defs run_defs)
  have t: "task_id timeout_task = ''t1''" by (simp add: timeout_task_def sample_task_def)
  from counters_once_per_completion_event [OF h1, of 100 VoiceAgent 0 1 1000 timeout_task]
    z f t show ?thesis
    by (simp add: timeout_s4_def timeout_sweep)
qed

text \<open>
  C9 as stated fails: one task was submitted, and it is counted once as failed (by the
  sweep) and once as successful (by the worker's late Result).
\<close>

theorem expired_task_counted_twice:
  "total_tasks (orchestration_metrics timeout_s4) = 1
   \<and> failed_tasks (orchestration_metrics timeout_s3) = 1
   \<and> successful_tasks (orchestration_metrics timeout_s3) = 0
   \<and> failed_tasks (orchestration_metrics timeout_s4) = 1
   \<and> successful_tasks (orchestration_metrics timeout_s4) = 1"
  by (simp add: timeout_defs run_defs)

text \<open>
  C1 fails on the code. \<^verbatim>\<open>_assign_task_to_agent\<close> does not mark the worker: a worker
  becomes Active only when its coroutine starts, after the pass. With two queued tasks
  and one idle voice worker, one pass creates a coroutine on that worker for each of
  the two tasks and leaves the worker Idle; once both coroutines have started, both
  tasks are in flight on the same worker (its utilisation counter is 2), and the
  worker's single task reference holds the second.
\<close>

theorem one_pass_assigns_two_tasks_to_one_worker:
  "orchestration_loop_turn VoiceAgent 0 double_s0
     = Inr (double_s1, [(''voice_agent_001'', sample_task ''a'' HIGH None),
                        (''voice_agent_001'', sample_task ''b'' HIGH None)])
   \<and> map_option state (map_of (agents double_s1) ''voice_agent_001'') = Some IDLE
   \<and> task_queue double_s1 = []
   \<and> active_tasks double_s3
       = [(''a'', sample_task ''a'' HIGH None), (''b'', sample_task ''b'' HIGH None)]
   \<and> map_option state (map_of (agents double_s3) ''voice_agent_001'') = Some ACTIVE
   \<and> map_option current_task (map_of (agents double_s3) ''voice_agent_001'')
       = Some (Some (sample_task ''b'' HIGH None))
   \<and> agent_utilization (orchestration_metrics double_s3) = [(''voice_agent_001'', 2)]"
  by (simp add: double_defs run_defs)

text \<open>
  C2 fails on the code. \<^verbatim>\<open>reverse=True\<close> reverses both components of the sort key:
  among tasks of equal priority the task without deadline comes first, then the later
  deadline, then the earlier one.
\<close>

theorem queue_sorts_later_deadline_first:
  "map (\<lambda>t. (task_id t, deadline t)) (task_queue deadline_s0)
     = [(''early'', Some 100), (''late'', Some 200), (''none'', None)]
   \<and> map_sum id (\<lambda>r. (map (\<lambda>t. (task_id t, deadline t)) (task_queue (fst r)), snd r))
        (process_task_queue VoiceAgent deadline_s0)
     = Inr ([(''none'', None), (''late'', Some 200), (''early'', Some 100)], [])"
  by (simp add: deadline_s0_def run_defs datetime_max_def)


end
